theory Spec2Isabelle
  imports Main "HOL-Library.AList" "HOL-Library.Word"
begin

section \<open>Data model\<close>

text \<open>
  A JavaScript object used as a dictionary (\<open>Dictionary<T>\<close>, \<open>Record<string, T>\<close>) is an
  association list of its own properties in the order in which they were created.
  \<open>obj[k]\<close> is \<open>map_of obj k\<close> (\<open>None\<close> for \<open>undefined\<close>), and \<open>obj[k] = v\<close> replaces
  the value of an existing property in place and appends a new property at the end.
  \<open>Object.entries\<close> and \<open>for ... of\<close> go through the list from its head.

  Two things are left out. The keys of the store's cache are taken to be ordinary
  property names: agent keys are serialized hashes, none is a name that
  \<open>Object.prototype\<close> gives a meaning to. (The form below files text fields under names
  taken from its configuration; there the name \<open>__proto__\<close> is treated where it arises.)
  And an engine enumerates the names that are array indices before the others, in
  numeric order; the theorems below speak about lookups, which the order of enumeration
  does not change.
\<close>

type_synonym 'a Dictionary = "(string \<times> 'a) list"

definition set_property :: "string \<Rightarrow> 'a \<Rightarrow> 'a Dictionary \<Rightarrow> 'a Dictionary" where
  "set_property k v obj = AList.update k v obj"

text \<open>
  \<open>Profile\<close> and \<open>AgentProfile\<close> of \<open>./types\<close>, as the store and the form build them.
  The property \<open>fields\<close> is written \<open>fields'\<close>: the record package keeps the plain
  name for itself.
\<close>

record Profile =
  nickname :: string
  fields' :: "string Dictionary"

record AgentProfile =
  agent_pub_key :: string
  profile :: Profile

text \<open>A hash is a \<open>Uint8Array\<close>; a cell id is the pair of a DNA hash and an agent key.\<close>

type_synonym hash = "8 word list"

text \<open>
  The reason a promise of the service rejects with. The store never inspects it.
\<close>

datatype rejection = Rejection string

text \<open>
  \<open>ProfilesService\<close> (\<open>./profiles.service\<close>) is an external collaborator: its methods
  are parameters of the model. Each one answers from the state \<open>'w\<close> of the remote
  side at the time of the call, with \<open>Inl\<close> for a rejected promise and \<open>Inr\<close> for a
  resolved one.
\<close>

record 'w ProfilesService =
  cellId :: "hash \<times> hash"
  getAllProfiles :: "'w \<Rightarrow> rejection + AgentProfile list"
  getMyProfile :: "'w \<Rightarrow> rejection + AgentProfile"
  searchProfiles_service :: "'w \<Rightarrow> string \<Rightarrow> rejection + AgentProfile list"
  createProfile_service :: "'w \<Rightarrow> Profile \<Rightarrow> rejection + unit"

record 'w ProfilesStore =
  profiles :: "Profile Dictionary"
  profilesService :: "'w ProfilesService"

text \<open>The constructor: \<open>profiles = {}\<close> and the service it is given.\<close>

definition new_ProfilesStore :: "'w ProfilesService \<Rightarrow> 'w ProfilesStore" where
  "new_ProfilesStore service = \<lparr>profiles = [], profilesService = service\<rparr>"

section \<open>The store\<close>

text \<open>
  \<open>serializeHash\<close> comes from \<open>@holochain-open-dev/common\<close> and is a parameter.
\<close>

definition myAgentPubKey :: "(hash \<Rightarrow> string) \<Rightarrow> 'w ProfilesStore \<Rightarrow> string" where
  "myAgentPubKey serializeHash s = serializeHash (snd (cellId (profilesService s)))"

definition myProfile :: "(hash \<Rightarrow> string) \<Rightarrow> 'w ProfilesStore \<Rightarrow> Profile option" where
  "myProfile serializeHash s = map_of (profiles s) (myAgentPubKey serializeHash s)"

definition knownProfiles :: "'w ProfilesStore \<Rightarrow> AgentProfile list" where
  "knownProfiles s =
     map (\<lambda>(agent_pub_key', profile'). \<lparr>agent_pub_key = agent_pub_key', profile = profile'\<rparr>)
       (profiles s)"

text \<open>
  An \<open>async\<close> method returns the outcome of its promise and the store after it. The
  \<open>await\<close> of a rejected promise rejects the method with the same reason before the
  \<open>runInAction\<close> block is reached; the block itself runs without suspension.
  A local name of the source that is also a property name carries a prime.
\<close>

definition fetchAllProfiles ::
  "'w \<Rightarrow> 'w ProfilesStore \<Rightarrow> (rejection + unit) \<times> 'w ProfilesStore" where
  "fetchAllProfiles w s =
     (case getAllProfiles (profilesService s) w of
        Inl reason \<Rightarrow> (Inl reason, s)
      | Inr allProfiles \<Rightarrow>
          (Inr (),
           s\<lparr>profiles :=
                fold (\<lambda>agentProfile. set_property (agent_pub_key agentProfile) (profile agentProfile))
                  allProfiles (profiles s)\<rparr>))"

definition fetchMyProfile ::
  "(hash \<Rightarrow> string) \<Rightarrow> 'w \<Rightarrow> 'w ProfilesStore \<Rightarrow> (rejection + unit) \<times> 'w ProfilesStore" where
  "fetchMyProfile serializeHash w s =
     (case getMyProfile (profilesService s) w of
        Inl reason \<Rightarrow> (Inl reason, s)
      | Inr myProfile' \<Rightarrow>
          (Inr (),
           s\<lparr>profiles :=
                set_property (myAgentPubKey serializeHash s) (profile myProfile') (profiles s)\<rparr>))"

definition searchProfiles ::
  "'w \<Rightarrow> string \<Rightarrow> 'w ProfilesStore \<Rightarrow> (rejection + unit) \<times> 'w ProfilesStore" where
  "searchProfiles w nicknamePrefix s =
     (case searchProfiles_service (profilesService s) w nicknamePrefix of
        Inl reason \<Rightarrow> (Inl reason, s)
      | Inr searchedProfiles \<Rightarrow>
          (Inr (),
           s\<lparr>profiles :=
                fold (\<lambda>searched. case (agent_pub_key searched, profile searched) of
                                 (agent_pub_key', profile') \<Rightarrow> set_property agent_pub_key' profile')
                  searchedProfiles (profiles s)\<rparr>))"

definition createProfile ::
  "(hash \<Rightarrow> string) \<Rightarrow> 'w \<Rightarrow> Profile \<Rightarrow> 'w ProfilesStore
     \<Rightarrow> (rejection + unit) \<times> 'w ProfilesStore" where
  "createProfile serializeHash w profile' s =
     (case createProfile_service (profilesService s) w profile' of
        Inl reason \<Rightarrow> (Inl reason, s)
      | Inr _ \<Rightarrow>
          (Inr (),
           s\<lparr>profiles := set_property (myAgentPubKey serializeHash s) profile' (profiles s)\<rparr>))"

text \<open>
  A client calls the methods one after the other. A call is listed with the state of
  the remote side that the service answers it from, in the order in which the awaited
  answers arrive; a rejected call throws at its caller, who may go on using the store.
\<close>

datatype call = FetchAllProfiles | FetchMyProfile | SearchProfiles string | CreateProfile Profile

fun perform ::
  "(hash \<Rightarrow> string) \<Rightarrow> call \<Rightarrow> 'w \<Rightarrow> 'w ProfilesStore \<Rightarrow> (rejection + unit) \<times> 'w ProfilesStore" where
  "perform serializeHash FetchAllProfiles w s = fetchAllProfiles w s"
| "perform serializeHash FetchMyProfile w s = fetchMyProfile serializeHash w s"
| "perform serializeHash (SearchProfiles nicknamePrefix) w s = searchProfiles w nicknamePrefix s"
| "perform serializeHash (CreateProfile profile') w s = createProfile serializeHash w profile' s"

fun run :: "(hash \<Rightarrow> string) \<Rightarrow> ('w \<times> call) list \<Rightarrow> 'w ProfilesStore \<Rightarrow> 'w ProfilesStore" where
  "run serializeHash [] s = s"
| "run serializeHash ((w, c) # cs) s = run serializeHash cs (snd (perform serializeHash c w s))"

text \<open>
  What a call of \<open>fetchAllProfiles\<close> or \<open>searchProfiles\<close> receives from the service:
  \<open>None\<close> for a rejected call and for the other two methods.
\<close>

fun received :: "'w ProfilesService \<Rightarrow> 'w \<times> call \<Rightarrow> AgentProfile list option" where
  "received service (w, FetchAllProfiles) =
     (case getAllProfiles service w of Inl _ \<Rightarrow> None | Inr allProfiles \<Rightarrow> Some allProfiles)"
| "received service (w, SearchProfiles nicknamePrefix) =
     (case searchProfiles_service service w nicknamePrefix of
        Inl _ \<Rightarrow> None | Inr searchedProfiles \<Rightarrow> Some searchedProfiles)"
| "received service (w, FetchMyProfile) = None"
| "received service (w, CreateProfile profile') = None"

definition entry :: "AgentProfile \<Rightarrow> string \<times> Profile" where
  "entry agentProfile = (agent_pub_key agentProfile, profile agentProfile)"

definition received_entries :: "'w ProfilesService \<Rightarrow> ('w \<times> call) list \<Rightarrow> (string \<times> Profile) list" where
  "received_entries service cs =
     concat (map (\<lambda>c. case received service c of None \<Rightarrow> [] | Some aps \<Rightarrow> map entry aps) cs)"

text \<open>
  The last entry of a sequence for each key: \<open>map_of\<close> finds the first pair with the
  key, so the sequence is read from its end.
\<close>

definition last_wins :: "(string \<times> 'a) list \<Rightarrow> string \<rightharpoonup> 'a" where
  "last_wins es = map_of (rev es)"

section \<open>Operations the callers use\<close>

text \<open>
  \<open>AgentAvatar\<close> calls \<open>fetchAgentProfile\<close> and \<open>profileOf\<close> on the store. The class
  \<open>ProfilesStore\<close> above declares neither, and the module of \<open>ProfilesService\<close>, where
  \<open>getAgentProfile\<close> would be, is not among the sources. The answer of
  \<open>getAgentProfile\<close> is a parameter, as the other answers of the service are.
\<close>

text \<open>
  Modelled from the spec: \<open>fetchAgentProfile\<close> of the store and \<open>getAgentProfile\<close> of the
  service are missing from the sources. The spec: "\<open>fetchAgentProfile(agentId)\<close> calls
  \<open>service.getAgentProfile(agentId)\<close>; writes \<open>cache[agentId] = profile\<close> on success";
  the service answers "AgentProfile or absent", and an absent result is one "which the
  store simply does not insert into the cache"; a failure of the service is passed on.
\<close>

definition fetchAgentProfile ::
  "('w \<Rightarrow> string \<Rightarrow> rejection + AgentProfile option) \<Rightarrow> 'w \<Rightarrow> string \<Rightarrow> 'w ProfilesStore
     \<Rightarrow> (rejection + unit) \<times> 'w ProfilesStore" where
  "fetchAgentProfile getAgentProfile w agentId s =
     (case getAgentProfile w agentId of
        Inl reason \<Rightarrow> (Inl reason, s)
      | Inr None \<Rightarrow> (Inr (), s)
      | Inr (Some agentProfile) \<Rightarrow>
          (Inr (), s\<lparr>profiles := set_property agentId (profile agentProfile) (profiles s)\<rparr>))"

text \<open>
  Modelled from the spec: \<open>profileOf\<close> of the store is missing from the sources. The
  spec: "\<open>profileOf(agentId)\<close> \<rightarrow> \<open>cache[agentId]\<close> or "absent"", a read view with no
  side effect, computed from the current cache.
\<close>

definition profileOf :: "'w ProfilesStore \<Rightarrow> string \<Rightarrow> Profile option" where
  "profileOf s agentId = map_of (profiles s) agentId"

text \<open>A client's requests: the four methods of the class, and \<open>fetchAgentProfile\<close>.\<close>

datatype request = Method call | FetchAgentProfile string

fun perform_request ::
  "('w \<Rightarrow> string \<Rightarrow> rejection + AgentProfile option) \<Rightarrow> (hash \<Rightarrow> string) \<Rightarrow> request \<Rightarrow> 'w
     \<Rightarrow> 'w ProfilesStore \<Rightarrow> (rejection + unit) \<times> 'w ProfilesStore" where
  "perform_request getAgentProfile serializeHash (Method c) w s = perform serializeHash c w s"
| "perform_request getAgentProfile serializeHash (FetchAgentProfile agentId) w s =
     fetchAgentProfile getAgentProfile w agentId s"

fun perform_requests ::
  "('w \<Rightarrow> string \<Rightarrow> rejection + AgentProfile option) \<Rightarrow> (hash \<Rightarrow> string)
     \<Rightarrow> ('w \<times> request) list \<Rightarrow> 'w ProfilesStore \<Rightarrow> 'w ProfilesStore" where
  "perform_requests getAgentProfile serializeHash [] s = s"
| "perform_requests getAgentProfile serializeHash ((w, r) # rs) s =
     perform_requests getAgentProfile serializeHash rs
       (snd (perform_request getAgentProfile serializeHash r w s))"

text \<open>
  The agents a successful request obtains a profile for: the agents of the returned
  items for \<open>fetchAllProfiles\<close> and \<open>searchProfiles\<close>, the store's own agent for
  \<open>fetchMyProfile\<close> (the service returns the caller's own profile) and for
  \<open>createProfile\<close>, the agent asked for when \<open>fetchAgentProfile\<close> finds a profile.
  A rejected request obtains none.
\<close>

fun returned_ids ::
  "('w \<Rightarrow> string \<Rightarrow> rejection + AgentProfile option) \<Rightarrow> (hash \<Rightarrow> string) \<Rightarrow> 'w ProfilesService
     \<Rightarrow> 'w \<times> request \<Rightarrow> string list" where
  "returned_ids getAgentProfile serializeHash service (w, Method FetchAllProfiles) =
     (case getAllProfiles service w of Inl _ \<Rightarrow> [] | Inr allProfiles \<Rightarrow> map agent_pub_key allProfiles)"
| "returned_ids getAgentProfile serializeHash service (w, Method FetchMyProfile) =
     (case getMyProfile service w of Inl _ \<Rightarrow> [] | Inr _ \<Rightarrow> [serializeHash (snd (cellId service))])"
| "returned_ids getAgentProfile serializeHash service (w, Method (SearchProfiles nicknamePrefix)) =
     (case searchProfiles_service service w nicknamePrefix of
        Inl _ \<Rightarrow> [] | Inr searchedProfiles \<Rightarrow> map agent_pub_key searchedProfiles)"
| "returned_ids getAgentProfile serializeHash service (w, Method (CreateProfile profile')) =
     (case createProfile_service service w profile' of
        Inl _ \<Rightarrow> [] | Inr _ \<Rightarrow> [serializeHash (snd (cellId service))])"
| "returned_ids getAgentProfile serializeHash service (w, FetchAgentProfile agentId) =
     (case getAgentProfile w agentId of Inr (Some _) \<Rightarrow> [agentId] | _ \<Rightarrow> [])"

section \<open>The form that edits a profile\<close>

text \<open>
  Of a \<open>mwc-textfield\<close> element the form reads the \<open>id\<close> and the \<open>value\<close> (written
  \<open>id'\<close> and \<open>value'\<close>). The state of an \<open>EditProfile\<close> element that \<open>fireSaveProfile\<close>
  reads is the list of the \<open>mwc-textfield\<close> elements of its shadow root in document
  order, as \<open>querySelectorAll\<close> returns them, and the private property \<open>_avatar\<close>
  (written \<open>avatar'\<close>; \<open>None\<close> is \<open>undefined\<close>).
\<close>

record TextField =
  id' :: string
  value' :: string

record EditProfile =
  textfields :: "TextField list"
  avatar' :: "string option"

datatype js_error = TypeError

text \<open>
  \<open>_nicknameField\<close> is the result of \<open>querySelector("#nickname-field")\<close>: the first
  element with that id, \<open>null\<close> when there is none.
\<close>

definition nicknameField :: "EditProfile \<Rightarrow> TextField option" where
  "nicknameField e = find (\<lambda>f. id' f = ''nickname-field'') (textfields e)"

text \<open>\<open>String.prototype.split\<close> with a separator of one character.\<close>

fun split_on :: "char \<Rightarrow> string \<Rightarrow> string list" where
  "split_on sep [] = [[]]"
| "split_on sep (c # cs) =
     (if c = sep then [] # split_on sep cs
      else (case split_on sep cs of [] \<Rightarrow> [[c]] | part # parts \<Rightarrow> (c # part) # parts))"

text \<open>\<open>field.id.split("-")[2]\<close>: \<open>undefined\<close> when the id has fewer than three parts.\<close>

definition textfieldToFieldId :: "TextField \<Rightarrow> string option" where
  "textfieldToFieldId field =
     (let parts = split_on CHR ''-'' (id' field)
      in if 2 < length parts then Some (parts ! 2) else None)"

text \<open>A value used as a property name: \<open>undefined\<close> becomes the name \<open>"undefined"\<close>.\<close>

definition property_key :: "string option \<Rightarrow> string" where
  "property_key k = (case k of None \<Rightarrow> ''undefined'' | Some name \<Rightarrow> name)"

text \<open>
  \<open>fields[id] = field\<close> on the object literal \<open>{}\<close>. For every name but one this creates
  or replaces an own property. For the name \<open>__proto__\<close> it runs the setter that the
  object inherits from \<open>Object.prototype\<close>: the text field becomes the prototype of the
  object and no property is created, so that \<open>Object.entries\<close> never shows the field.
  Later assignments to that object then also see what the element inherits from its
  classes, which these sources do not show; the model files them as own properties, as
  the engine does for a name the element knows nothing of, and the theorem on
  \<open>fireSaveProfile\<close> is stated for forms without a text field of that name.
\<close>

definition getAdditionalTextFields :: "EditProfile \<Rightarrow> TextField Dictionary" where
  "getAdditionalTextFields e =
     (let textfields' = filter (\<lambda>f. id' f \<noteq> ''nickname-field'') (textfields e)
      in fold (\<lambda>field fields.
                 (let id = property_key (textfieldToFieldId field)
                  in if id = ''__proto__'' then fields else set_property id field fields))
           textfields' [])"

definition getAdditionalFieldsValues :: "EditProfile \<Rightarrow> string Dictionary" where
  "getAdditionalFieldsValues e =
     fold (\<lambda>(id, textfield). set_property id (value' textfield)) (getAdditionalTextFields e) []"

text \<open>\<open>if (this._avatar)\<close>: \<open>undefined\<close> and the empty string are falsy.\<close>

definition truthy :: "string option \<Rightarrow> bool" where
  "truthy v = (case v of None \<Rightarrow> False | Some str \<Rightarrow> str \<noteq> [])"

text \<open>
  The \<open>CustomEvent\<close> that \<open>fireSaveProfile\<close> dispatches: its type, the profile in its
  \<open>detail\<close>, and its two flags. Reading \<open>value\<close> of a missing nickname field throws.
\<close>

record CustomEvent =
  event_type :: string
  detail_profile :: Profile
  bubbles :: bool
  composed :: bool

definition fireSaveProfile :: "EditProfile \<Rightarrow> js_error + CustomEvent" where
  "fireSaveProfile e =
     (case nicknameField e of
        None \<Rightarrow> Inl TypeError
      | Some nickname_field \<Rightarrow>
          (let nickname' = value' nickname_field;
               additional = getAdditionalFieldsValues e;
               fields = (if truthy (avatar' e)
                         then (case avatar' e of
                                 None \<Rightarrow> additional
                               | Some avatar \<Rightarrow> set_property ''avatar'' avatar additional)
                         else additional)
           in Inr \<lparr>event_type = ''save-profile'',
                   detail_profile = \<lparr>nickname = nickname', fields' = fields\<rparr>,
                   bubbles = True, composed = True\<rparr>))"

text \<open>
  The name under which the form files a text field, the additional text fields of a
  form, and what they say for a name: the value of the last of them, in document order,
  filed under it.
\<close>

definition field_key :: "TextField \<Rightarrow> string" where
  "field_key field = property_key (textfieldToFieldId field)"

definition additional_textfields :: "EditProfile \<Rightarrow> TextField list" where
  "additional_textfields e = filter (\<lambda>f. id' f \<noteq> ''nickname-field'') (textfields e)"

definition additional_value :: "EditProfile \<Rightarrow> string \<Rightarrow> string option" where
  "additional_value e k =
     map_option value' (find (\<lambda>f. field_key f = k) (rev (additional_textfields e)))"

section \<open>A small service to run the model on\<close>

text \<open>
  The remote side is either out of reach (\<open>None\<close>) or the list of the profiles it
  knows; the first of them is the caller's own.
\<close>

definition example_serializeHash :: "hash \<Rightarrow> string" where
  "example_serializeHash h = CHR ''u'' # map (\<lambda>b. if b < 128 then CHR ''A'' else CHR ''B'') h"

definition example_service :: "AgentProfile list option ProfilesService" where
  "example_service =
     \<lparr>cellId = ([1, 2], [3]),
      getAllProfiles = (\<lambda>w. case w of None \<Rightarrow> Inl (Rejection ''offline'') | Some known \<Rightarrow> Inr known),
      getMyProfile = (\<lambda>w. case w of None \<Rightarrow> Inl (Rejection ''offline'')
                            | Some known \<Rightarrow> (case known of [] \<Rightarrow> Inl (Rejection ''no profile'')
                                             | mine # _ \<Rightarrow> Inr mine)),
      searchProfiles_service = (\<lambda>w nicknamePrefix. case w of None \<Rightarrow> Inl (Rejection ''offline'')
          | Some known \<Rightarrow>
              Inr (filter (\<lambda>a. take (length nicknamePrefix) (nickname (profile a)) = nicknamePrefix)
                     known)),
      createProfile_service = (\<lambda>w profile'. case w of None \<Rightarrow> Inl (Rejection ''offline'')
          | Some known \<Rightarrow> Inr ())\<rparr>"

definition alice :: AgentProfile where
  "alice = \<lparr>agent_pub_key = ''uA'', profile = \<lparr>nickname = ''Alice'', fields' = []\<rparr>\<rparr>"

definition bob :: AgentProfile where
  "bob = \<lparr>agent_pub_key = ''uB'', profile = \<lparr>nickname = ''Bob'', fields' = []\<rparr>\<rparr>"

definition alicia :: AgentProfile where
  "alicia = \<lparr>agent_pub_key = ''uA'', profile = \<lparr>nickname = ''Alicia'', fields' = [(''avatar'', ''a.png'')]\<rparr>\<rparr>"

definition example_store :: "AgentProfile list option ProfilesStore" where
  "example_store = \<lparr>profiles = [(''uB'', profile bob)], profilesService = example_service\<rparr>"

definition example_calls :: "(AgentProfile list option \<times> call) list" where
  "example_calls =
     [(Some [alice, bob], FetchAllProfiles), (Some [bob, alicia], SearchProfiles ''Al'')]"

definition example_getAgentProfile ::
  "AgentProfile list option \<Rightarrow> string \<Rightarrow> rejection + AgentProfile option" where
  "example_getAgentProfile w agentId =
     (case w of None \<Rightarrow> Inl (Rejection ''offline'')
      | Some known \<Rightarrow> Inr (find (\<lambda>a. agent_pub_key a = agentId) known))"

definition example_requests :: "(AgentProfile list option \<times> request) list" where
  "example_requests =
     [(Some [alice, bob], Method FetchAllProfiles),
      (None, Method (SearchProfiles ''Al'')),
      (Some [alice, bob], FetchAgentProfile ''uC''),
      (None, FetchAgentProfile ''uD'')]"

text \<open>
  Three forms: one with a chosen avatar, one with no avatar whose configuration has
  an additional field named \<open>avatar\<close>, and one whose configuration has an additional
  field named \<open>__proto__\<close>.
\<close>

definition proto_form :: EditProfile where
  "proto_form =
     \<lparr>textfields = [\<lparr>id' = ''nickname-field'', value' = ''Alice''\<rparr>,
                    \<lparr>id' = ''profile-field-__proto__'', value' = ''typed''\<rparr>],
      avatar' = None\<rparr>"

definition example_form :: EditProfile where
  "example_form =
     \<lparr>textfields = [\<lparr>id' = ''nickname-field'', value' = ''Alice''\<rparr>,
                    \<lparr>id' = ''profile-field-location'', value' = ''Paris''\<rparr>],
      avatar' = Some ''data:image/png;base64,iVBORw0KGgo=''\<rparr>"

definition collision_form :: EditProfile where
  "collision_form =
     \<lparr>textfields = [\<lparr>id' = ''nickname-field'', value' = ''Alice''\<rparr>,
                    \<lparr>id' = ''profile-field-location'', value' = ''Paris''\<rparr>,
                    \<lparr>id' = ''profile-field-avatar'', value' = ''typed''\<rparr>],
      avatar' = None\<rparr>"

section \<open>Lookups after an assignment\<close>

lemma map_of_set_property:
  "map_of (set_property k v obj) = (map_of obj)(k \<mapsto> v)"
  by (simp add: set_property_def update_conv')

lemmas example_defs = example_serializeHash_def example_service_def alice_def bob_def alicia_def
  example_store_def

lemmas form_defs = fireSaveProfile_def nicknameField_def getAdditionalFieldsValues_def
  getAdditionalTextFields_def textfieldToFieldId_def property_key_def truthy_def set_property_def
  Let_def

text \<open>
  A loop of assignments overrides the lookups of the object with the last pair
  assigned for each key.
\<close>

lemma last_wins_Cons: "last_wins (e # es) = [fst e \<mapsto> snd e] ++ last_wins es"
  by (cases e) (simp add: last_wins_def)

lemma last_wins_append: "last_wins (xs @ ys) = last_wins xs ++ last_wins ys"
  by (simp add: last_wins_def)

lemma map_of_fold_set_property:
  "map_of (fold (\<lambda>x. set_property (f x) (g x)) xs obj) =
     map_of obj ++ last_wins (map (\<lambda>x. (f x, g x)) xs)"
proof (induction xs arbitrary: obj)
  case Nil
  show ?case by (simp add: last_wins_def)
next
  case (Cons x xs)
  have "map_of (fold (\<lambda>x. set_property (f x) (g x)) (x # xs) obj) =
        map_of (set_property (f x) (g x) obj) ++ last_wins (map (\<lambda>x. (f x, g x)) xs)"
    using Cons.IH [of "set_property (f x) (g x) obj"] by simp
  also have "map_of (set_property (f x) (g x) obj) = map_of obj ++ [f x \<mapsto> g x]"
    by (simp add: map_of_set_property)
  also have "(map_of obj ++ [f x \<mapsto> g x]) ++ last_wins (map (\<lambda>x. (f x, g x)) xs) =
       map_of obj ++ last_wins (map (\<lambda>x. (f x, g x)) (x # xs))"
    by (simp only: last_wins_Cons list.map fst_conv snd_conv map_add_assoc)
  finally show ?case .
qed

lemma last_wins_Nil: "last_wins [] = Map.empty"
  by (simp add: last_wins_def)

lemma last_wins_absent: "k \<notin> fst ` set es \<Longrightarrow> last_wins es k = None"
  by (simp add: last_wins_def map_of_eq_None_iff)

lemma last_wins_final:
  assumes "k \<notin> fst ` set after"
  shows "last_wins (before @ (k, v) # after) k = Some v"
proof -
  have "map_of (rev after) k = None"
    using assms by (simp add: map_of_eq_None_iff)
  then show ?thesis
    by (simp add: last_wins_def map_add_def)
qed

lemma entry_fun: "(\<lambda>a. (agent_pub_key a, profile a)) = entry"
  by (simp add: fun_eq_iff entry_def)

lemma fetchAllProfiles_lookup:
  "getAllProfiles (profilesService s) w = Inr allProfiles \<Longrightarrow>
   map_of (profiles (snd (fetchAllProfiles w s))) =
     map_of (profiles s) ++ last_wins (map entry allProfiles)"
  by (simp add: fetchAllProfiles_def map_of_fold_set_property entry_fun)

lemma searchProfiles_lookup:
  "searchProfiles_service (profilesService s) w nicknamePrefix = Inr searchedProfiles \<Longrightarrow>
   map_of (profiles (snd (searchProfiles w nicknamePrefix s))) =
     map_of (profiles s) ++ last_wins (map entry searchedProfiles)"
  by (simp add: searchProfiles_def map_of_fold_set_property entry_fun)

section \<open>Sequences of calls\<close>

text \<open>No method replaces the service of the store.\<close>

lemma profilesService_perform:
  "profilesService (snd (perform serializeHash c w s)) = profilesService s"
  by (cases c)
    (simp_all add: fetchAllProfiles_def fetchMyProfile_def searchProfiles_def createProfile_def
      split: sum.splits)

lemma perform_received:
  assumes "received (profilesService s) (w, c) = Some aps"
  shows "map_of (profiles (snd (perform serializeHash c w s))) =
           map_of (profiles s) ++ last_wins (map entry aps)"
proof (cases c)
  case FetchAllProfiles
  with assms show ?thesis
    by (auto simp add: fetchAllProfiles_lookup split: sum.splits)
next
  case (SearchProfiles nicknamePrefix)
  with assms show ?thesis
    by (auto simp add: searchProfiles_lookup split: sum.splits)
qed (use assms in simp_all)

lemma run_received:
  assumes "\<forall>c \<in> set cs. received (profilesService s) c \<noteq> None"
  shows "map_of (profiles (run serializeHash cs s)) =
           map_of (profiles s) ++ last_wins (received_entries (profilesService s) cs)"
  using assms
proof (induction cs arbitrary: s)
  case Nil
  show ?case by (simp add: received_entries_def last_wins_Nil)
next
  case (Cons wc cs)
  obtain w c where wc: "wc = (w, c)" by (cases wc)
  let ?s = "snd (perform serializeHash c w s)"
  from Cons.prems wc obtain aps where aps: "received (profilesService s) (w, c) = Some aps"
    by auto
  have service: "profilesService ?s = profilesService s"
    by (rule profilesService_perform)
  have rest: "\<forall>c \<in> set cs. received (profilesService ?s) c \<noteq> None"
    using Cons.prems service by simp
  have "map_of (profiles (run serializeHash (wc # cs) s)) =
        map_of (profiles ?s) ++ last_wins (received_entries (profilesService s) cs)"
    using Cons.IH [OF rest] service wc by simp
  also have "map_of (profiles ?s) = map_of (profiles s) ++ last_wins (map entry aps)"
    by (rule perform_received [OF aps])
  also have "(map_of (profiles s) ++ last_wins (map entry aps))
        ++ last_wins (received_entries (profilesService s) cs) =
      map_of (profiles s) ++ last_wins (received_entries (profilesService s) (wc # cs))"
    using aps wc by (simp add: received_entries_def last_wins_append)
  finally show ?case .
qed

text \<open>The agents in the cache after a call are those before it and those it obtained.\<close>

lemma dom_fold_set_property:
  "dom (map_of (fold (\<lambda>x. set_property (f x) (g x)) xs obj)) = dom (map_of obj) \<union> f ` set xs"
proof (induction xs arbitrary: obj)
  case Nil
  show ?case by simp
next
  case (Cons x xs)
  have "dom (map_of (fold (\<lambda>x. set_property (f x) (g x)) (x # xs) obj)) =
      dom (map_of (set_property (f x) (g x) obj)) \<union> f ` set xs"
    using Cons.IH [of "set_property (f x) (g x) obj"] by simp
  then show ?case by (auto simp add: map_of_set_property)
qed

lemma dom_perform:
  "dom (map_of (profiles (snd (perform serializeHash c w s)))) =
     dom (map_of (profiles s))
       \<union> set (returned_ids getAgentProfile serializeHash (profilesService s) (w, Method c))"
  by (cases c)
    (auto simp add: fetchAllProfiles_def fetchMyProfile_def searchProfiles_def createProfile_def
      dom_fold_set_property map_of_set_property myAgentPubKey_def split: sum.splits)

lemma dom_perform_request:
  "dom (map_of (profiles (snd (perform_request getAgentProfile serializeHash r w s)))) =
     dom (map_of (profiles s))
       \<union> set (returned_ids getAgentProfile serializeHash (profilesService s) (w, r))"
proof (cases r)
  case (Method c)
  then show ?thesis by (simp add: dom_perform)
next
  case (FetchAgentProfile agentId)
  then show ?thesis
    by (auto simp add: fetchAgentProfile_def map_of_set_property split: sum.splits option.splits)
qed

lemma profilesService_perform_request:
  "profilesService (snd (perform_request getAgentProfile serializeHash r w s)) = profilesService s"
  by (cases r)
    (simp_all add: profilesService_perform fetchAgentProfile_def split: sum.splits option.splits)

lemma dom_perform_requests:
  "dom (map_of (profiles (perform_requests getAgentProfile serializeHash rs s))) =
     dom (map_of (profiles s))
       \<union> set (concat (map (returned_ids getAgentProfile serializeHash (profilesService s)) rs))"
proof (induction rs arbitrary: s)
  case Nil
  show ?case by simp
next
  case (Cons wr rs)
  obtain w r where wr: "wr = (w, r)" by (cases wr)
  let ?s = "snd (perform_request getAgentProfile serializeHash r w s)"
  have "dom (map_of (profiles (perform_requests getAgentProfile serializeHash (wr # rs) s))) =
      dom (map_of (profiles ?s))
        \<union> set (concat (map (returned_ids getAgentProfile serializeHash (profilesService ?s)) rs))"
    using Cons.IH [of ?s] by (simp add: wr)
  then show ?case
    by (simp add: dom_perform_request profilesService_perform_request wr Un_assoc)
qed

section \<open>The values of the additional text fields\<close>

text \<open>
  \<open>getAdditionalTextFields\<close> builds an object from nothing, so its names are distinct,
  and \<open>getAdditionalFieldsValues\<close> maps each name to the value of its text field.
\<close>

lemma distinct_fold_set_property:
  "distinct (map fst obj) \<Longrightarrow>
   distinct (map fst (fold (\<lambda>x. set_property (f x) (g x)) xs obj))"
  by (induction xs arbitrary: obj) (simp_all add: set_property_def distinct_update)

lemma last_wins_distinct:
  assumes "distinct (map fst es)"
  shows "last_wins es = map_of es"
proof -
  have "distinct (map fst (rev es))"
    using assms by (simp add: rev_map [symmetric])
  moreover have "set (rev es) = set es" by simp
  ultimately show ?thesis
    unfolding last_wins_def using assms by (simp only: map_of_inject_set)
qed

lemma map_of_map_value:
  "map_of (map (\<lambda>p. (fst p, h (snd p))) es) k = map_option h (map_of es k)"
  by (induction es) auto

lemma last_wins_map_value:
  "last_wins (map (\<lambda>p. (fst p, h (snd p))) es) k = map_option h (last_wins es k)"
  unfolding last_wins_def rev_map by (rule map_of_map_value)

lemma map_of_keyed: "map_of (map (\<lambda>x. (f x, x)) xs) k = find (\<lambda>x. f x = k) xs"
  by (induction xs) auto

lemma getAdditionalTextFields_ordinary:
  assumes "''__proto__'' \<notin> field_key ` set (additional_textfields e)"
  shows "getAdditionalTextFields e =
           fold (\<lambda>field. set_property (field_key field) field) (additional_textfields e) []"
proof -
  have "(let id = property_key (textfieldToFieldId field)
         in if id = ''__proto__'' then fields else set_property id field fields) =
        set_property (field_key field) field fields"
    if "field \<in> set (additional_textfields e)" for field and fields :: "TextField Dictionary"
  proof -
    have "field_key field \<in> field_key ` set (additional_textfields e)"
      using that by (rule imageI)
    with assms have "field_key field \<noteq> ''__proto__''"
      by metis
    then show ?thesis
      by (simp add: field_key_def Let_def)
  qed
  then have "fold (\<lambda>field fields.
                 (let id = property_key (textfieldToFieldId field)
                  in if id = ''__proto__'' then fields else set_property id field fields))
               (additional_textfields e) [] =
             fold (\<lambda>field. set_property (field_key field) field) (additional_textfields e) []"
    by (intro fold_cong refl) (simp add: fun_eq_iff)
  then show ?thesis
    by (simp add: getAdditionalTextFields_def additional_textfields_def)
qed

lemma getAdditionalTextFields_lookup:
  assumes "''__proto__'' \<notin> field_key ` set (additional_textfields e)"
  shows "map_of (getAdditionalTextFields e) k =
           find (\<lambda>f. field_key f = k) (rev (additional_textfields e))"
proof -
  have "map_of (getAdditionalTextFields e) =
      last_wins (map (\<lambda>f. (field_key f, f)) (additional_textfields e))"
    unfolding getAdditionalTextFields_ordinary [OF assms]
    using map_of_fold_set_property [of field_key "\<lambda>f. f" "additional_textfields e" "[]"]
    by simp
  then show ?thesis
    by (simp add: last_wins_def rev_map map_of_keyed)
qed

lemma distinct_getAdditionalTextFields:
  assumes "''__proto__'' \<notin> field_key ` set (additional_textfields e)"
  shows "distinct (map fst (getAdditionalTextFields e))"
  unfolding getAdditionalTextFields_ordinary [OF assms]
  using distinct_fold_set_property [of "[]" field_key "\<lambda>f. f"]
  by simp

lemma getAdditionalFieldsValues_lookup:
  assumes "''__proto__'' \<notin> field_key ` set (additional_textfields e)"
  shows "map_of (getAdditionalFieldsValues e) k = additional_value e k"
proof -
  have "map_of (getAdditionalFieldsValues e) =
      last_wins (map (\<lambda>p. (fst p, value' (snd p))) (getAdditionalTextFields e))"
    unfolding getAdditionalFieldsValues_def case_prod_unfold
    using map_of_fold_set_property [of fst "\<lambda>p. value' (snd p)" "getAdditionalTextFields e" "[]"]
    by simp
  then have "map_of (getAdditionalFieldsValues e) k =
      map_option value' (last_wins (getAdditionalTextFields e) k)"
    by (simp only: last_wins_map_value)
  also have "last_wins (getAdditionalTextFields e) = map_of (getAdditionalTextFields e)"
    by (rule last_wins_distinct [OF distinct_getAdditionalTextFields [OF assms]])
  finally show ?thesis
    by (simp only: getAdditionalTextFields_lookup [OF assms] additional_value_def)
qed

text \<open>A text field filed under \<open>__proto__\<close> leaves no trace in the values.\<close>

lemma getAdditionalFieldsValues_proto_form: "getAdditionalFieldsValues proto_form = []"
  by (simp add: getAdditionalFieldsValues_def getAdditionalTextFields_def textfieldToFieldId_def
      property_key_def proto_form_def Let_def)

section \<open>Rejected calls\<close>

text \<open>
  Claim C2. When the call of the service is rejected, each of \<open>fetchAllProfiles\<close>,
  \<open>fetchMyProfile\<close>, \<open>searchProfiles\<close> and \<open>createProfile\<close> is rejected with the same
  reason and leaves the store, and so the cache, as it was before the call.
\<close>

theorem rejected_call_keeps_store:
  "(getAllProfiles (profilesService s) w = Inl reason \<longrightarrow>
      fetchAllProfiles w s = (Inl reason, s)) \<and>
   (getMyProfile (profilesService s) w = Inl reason \<longrightarrow>
      fetchMyProfile serializeHash w s = (Inl reason, s)) \<and>
   (searchProfiles_service (profilesService s) w nicknamePrefix = Inl reason \<longrightarrow>
      searchProfiles w nicknamePrefix s = (Inl reason, s)) \<and>
   (createProfile_service (profilesService s) w p = Inl reason \<longrightarrow>
      createProfile serializeHash w p s = (Inl reason, s))"
  by (simp add: fetchAllProfiles_def fetchMyProfile_def searchProfiles_def createProfile_def)

theorem rejected_call_keeps_store_witness:
  "getAllProfiles (profilesService example_store) None = Inl (Rejection ''offline'') \<and>
   getMyProfile (profilesService example_store) None = Inl (Rejection ''offline'') \<and>
   searchProfiles_service (profilesService example_store) None ''Al'' = Inl (Rejection ''offline'') \<and>
   createProfile_service (profilesService example_store) None (profile alice)
     = Inl (Rejection ''offline'') \<and>
   fetchAllProfiles None example_store = (Inl (Rejection ''offline''), example_store) \<and>
   fetchMyProfile example_serializeHash None example_store
     = (Inl (Rejection ''offline''), example_store) \<and>
   searchProfiles None ''Al'' example_store = (Inl (Rejection ''offline''), example_store) \<and>
   createProfile example_serializeHash None (profile alice) example_store
     = (Inl (Rejection ''offline''), example_store) \<and>
   profiles (snd (fetchAllProfiles None example_store)) = [(''uB'', \<lparr>nickname = ''Bob'', fields' = []\<rparr>)]"
  using rejected_call_keeps_store [of example_store None "Rejection ''offline''"
      example_serializeHash "''Al''" "profile alice"]
  by (simp add: example_store_def example_service_def bob_def)

section \<open>The store's own profile\<close>

text \<open>
  Claim C4. After a successful \<open>createProfile(p)\<close> the view \<open>myProfile\<close> is exactly \<open>p\<close>:
  the store keeps the value it was given and asks the service for nothing more.
\<close>

theorem createProfile_then_myProfile:
  assumes "createProfile_service (profilesService s) w p = Inr confirmation"
  shows "fst (createProfile serializeHash w p s) = Inr () \<and>
         myProfile serializeHash (snd (createProfile serializeHash w p s)) = Some p"
  using assms
  by (simp add: createProfile_def myProfile_def myAgentPubKey_def map_of_set_property)

theorem createProfile_then_myProfile_witness:
  "createProfile_service (profilesService example_store) (Some []) (profile alicia) = Inr () \<and>
   myProfile example_serializeHash
     (snd (createProfile example_serializeHash (Some []) (profile alicia) example_store))
     = Some \<lparr>nickname = ''Alicia'', fields' = [(''avatar'', ''a.png'')]\<rparr>"
proof -
  have ok: "createProfile_service (profilesService example_store) (Some []) (profile alicia) = Inr ()"
    by (simp add: example_store_def example_service_def)
  from createProfile_then_myProfile [OF ok, of example_serializeHash] ok
  show ?thesis by (simp add: alicia_def)
qed

text \<open>
  Claim C9. \<open>fetchMyProfile\<close> and \<open>createProfile\<close> leave the cached profile of every
  agent other than \<open>myAgentPubKey\<close> as it was; when they succeed, the entry of
  \<open>myAgentPubKey\<close> holds the profile received, respectively the profile given.
\<close>

theorem own_entry_only:
  assumes "agentId \<noteq> myAgentPubKey serializeHash s"
  shows "map_of (profiles (snd (fetchMyProfile serializeHash w s))) agentId
           = map_of (profiles s) agentId \<and>
         map_of (profiles (snd (createProfile serializeHash w p s))) agentId
           = map_of (profiles s) agentId \<and>
         (\<forall>mine. getMyProfile (profilesService s) w = Inr mine \<longrightarrow>
            map_of (profiles (snd (fetchMyProfile serializeHash w s)))
              (myAgentPubKey serializeHash s) = Some (profile mine)) \<and>
         (\<forall>confirmation. createProfile_service (profilesService s) w p = Inr confirmation \<longrightarrow>
            map_of (profiles (snd (createProfile serializeHash w p s)))
              (myAgentPubKey serializeHash s) = Some p)"
  using assms
  by (auto simp add: fetchMyProfile_def createProfile_def map_of_set_property
      split: sum.splits)

theorem own_entry_only_witness:
  "''uB'' \<noteq> myAgentPubKey example_serializeHash example_store \<and>
   getMyProfile (profilesService example_store) (Some [alice]) = Inr alice \<and>
   createProfile_service (profilesService example_store) (Some [alice]) (profile alicia) = Inr () \<and>
   map_of (profiles (snd (fetchMyProfile example_serializeHash (Some [alice]) example_store))) ''uB''
     = Some (profile bob) \<and>
   map_of (profiles (snd (createProfile example_serializeHash (Some [alice]) (profile alicia)
       example_store))) ''uB'' = Some (profile bob) \<and>
   map_of (profiles (snd (fetchMyProfile example_serializeHash (Some [alice]) example_store))) ''uA''
     = Some (profile alice) \<and>
   map_of (profiles (snd (createProfile example_serializeHash (Some [alice]) (profile alicia)
       example_store))) ''uA'' = Some (profile alicia)"
proof -
  have other: "''uB'' \<noteq> myAgentPubKey example_serializeHash example_store"
    by (simp add: myAgentPubKey_def example_defs)
  have me: "myAgentPubKey example_serializeHash example_store = ''uA''"
    by (simp add: myAgentPubKey_def example_defs)
  have got: "getMyProfile (profilesService example_store) (Some [alice]) = Inr alice"
    by (simp add: example_store_def example_service_def)
  have made: "createProfile_service (profilesService example_store) (Some [alice]) (profile alicia)
      = Inr ()"
    by (simp add: example_store_def example_service_def)
  have before: "map_of (profiles example_store) ''uB'' = Some (profile bob)"
    by (simp add: example_store_def)
  from own_entry_only [OF other, of "Some [alice]" "profile alicia"] other got made before me
  show ?thesis by simp
qed

section \<open>Merging what the service returns\<close>

text \<open>
  Claim C1. After any sequence of successful \<open>fetchAllProfiles\<close> and \<open>searchProfiles\<close>
  calls, started in any cache, the cache is the initial cache overwritten by all the
  entries the calls received, the last one received for an agent winning: an agent no
  call received keeps its initial entry, and an agent some call received has the
  profile of the last entry received for it.
\<close>

theorem fetch_and_search_last_received_wins:
  assumes "\<forall>c \<in> set cs. received (profilesService s) c \<noteq> None"
  shows "map_of (profiles (run serializeHash cs s)) =
           map_of (profiles s) ++ last_wins (received_entries (profilesService s) cs) \<and>
         (\<forall>agentId. agentId \<notin> fst ` set (received_entries (profilesService s) cs) \<longrightarrow>
            map_of (profiles (run serializeHash cs s)) agentId = map_of (profiles s) agentId) \<and>
         (\<forall>earlier agentId p later.
            received_entries (profilesService s) cs = earlier @ (agentId, p) # later \<and>
            agentId \<notin> fst ` set later \<longrightarrow>
            map_of (profiles (run serializeHash cs s)) agentId = Some p)"
proof -
  have eq: "map_of (profiles (run serializeHash cs s)) =
           map_of (profiles s) ++ last_wins (received_entries (profilesService s) cs)"
    by (rule run_received [OF assms])
  have untouched: "map_of (profiles (run serializeHash cs s)) agentId = map_of (profiles s) agentId"
    if "agentId \<notin> fst ` set (received_entries (profilesService s) cs)" for agentId
    using that by (simp add: eq map_add_def last_wins_absent)
  have final: "map_of (profiles (run serializeHash cs s)) agentId = Some p"
    if "received_entries (profilesService s) cs = earlier @ (agentId, p) # later"
      and "agentId \<notin> fst ` set later" for earlier agentId p later
    using that by (simp add: eq map_add_def last_wins_final)
  from eq untouched final show ?thesis by blast
qed

theorem fetch_and_search_last_received_wins_witness:
  "received (profilesService example_store) (Some [alice, bob], FetchAllProfiles) = Some [alice, bob] \<and>
   received (profilesService example_store) (Some [bob, alicia], SearchProfiles ''Al'') = Some [alicia] \<and>
   map_of (profiles (run example_serializeHash example_calls example_store)) ''uA''
     = Some (profile alicia) \<and>
   map_of (profiles (run example_serializeHash example_calls example_store)) ''uB''
     = Some (profile bob) \<and>
   map_of (profiles (run example_serializeHash example_calls example_store)) ''uC'' = None"
proof -
  have first: "received (profilesService example_store) (Some [alice, bob], FetchAllProfiles)
      = Some [alice, bob]"
    by (simp add: example_store_def example_service_def)
  have second: "received (profilesService example_store) (Some [bob, alicia], SearchProfiles ''Al'')
      = Some [alicia]"
    by (simp add: example_store_def example_service_def alicia_def bob_def)
  have all: "\<forall>c \<in> set example_calls. received (profilesService example_store) c \<noteq> None"
    using first second by (simp add: example_calls_def)
  have entries: "received_entries (profilesService example_store) example_calls
      = [entry alice, entry bob, entry alicia]"
    using first second by (simp add: received_entries_def example_calls_def)
  from fetch_and_search_last_received_wins [OF all, of example_serializeHash]
  have "map_of (profiles (run example_serializeHash example_calls example_store)) =
      map_of (profiles example_store) ++ last_wins [entry alice, entry bob, entry alicia]"
    by (simp only: entries)
  then show ?thesis
    using first second
    by (simp add: last_wins_def entry_def map_add_def example_store_def alice_def bob_def alicia_def)
qed

text \<open>
  Claim C3. A successful \<open>fetchAllProfiles\<close> resolves with no value and changes nothing
  but the cache, into which it writes the items of the returned sequence one after the
  other, each under its agent's key: every returned agent is in the cache afterwards,
  an item that no later item of the same agent follows is what the cache holds for its
  agent, and the entries of the agents that were not returned are as before.
\<close>

theorem fetchAllProfiles_overwrites:
  assumes "getAllProfiles (profilesService s) w = Inr allProfiles"
  shows "fst (fetchAllProfiles w s) = Inr () \<and>
         profilesService (snd (fetchAllProfiles w s)) = profilesService s \<and>
         map_of (profiles (snd (fetchAllProfiles w s))) =
           fold (\<lambda>a cache. cache(agent_pub_key a \<mapsto> profile a)) allProfiles (map_of (profiles s)) \<and>
         (\<forall>a \<in> set allProfiles.
            agent_pub_key a \<in> dom (map_of (profiles (snd (fetchAllProfiles w s))))) \<and>
         (\<forall>earlier a later.
            allProfiles = earlier @ a # later \<and> agent_pub_key a \<notin> agent_pub_key ` set later \<longrightarrow>
            map_of (profiles (snd (fetchAllProfiles w s))) (agent_pub_key a) = Some (profile a)) \<and>
         (\<forall>agentId. agentId \<notin> agent_pub_key ` set allProfiles \<longrightarrow>
            map_of (profiles (snd (fetchAllProfiles w s))) agentId = map_of (profiles s) agentId)"
proof -
  let ?after = "map_of (profiles (snd (fetchAllProfiles w s)))"
  have keys: "fst ` set (map entry xs) = agent_pub_key ` set xs" for xs
    by (auto simp add: entry_def image_iff)
  have eq: "?after = map_of (profiles s) ++ last_wins (map entry allProfiles)"
    by (rule fetchAllProfiles_lookup [OF assms])
  have result: "fst (fetchAllProfiles w s) = Inr ()"
    using assms by (simp add: fetchAllProfiles_def)
  have service: "profilesService (snd (fetchAllProfiles w s)) = profilesService s"
    using assms by (simp add: fetchAllProfiles_def)
  have steps: "map_of (fold (\<lambda>a. set_property (agent_pub_key a) (profile a)) xs obj) =
      fold (\<lambda>a cache. cache(agent_pub_key a \<mapsto> profile a)) xs (map_of obj)" for xs obj
    by (induction xs arbitrary: obj) (simp_all add: map_of_set_property)
  have in_order: "?after =
      fold (\<lambda>a cache. cache(agent_pub_key a \<mapsto> profile a)) allProfiles (map_of (profiles s))"
    using assms by (simp add: fetchAllProfiles_def steps)
  have final: "?after (agent_pub_key a) = Some (profile a)"
    if "allProfiles = earlier @ a # later" and "agent_pub_key a \<notin> agent_pub_key ` set later"
    for earlier a later
  proof -
    have split: "map entry allProfiles =
        map entry earlier @ (agent_pub_key a, profile a) # map entry later"
      using that(1) by (simp add: entry_def)
    have "agent_pub_key a \<notin> fst ` set (map entry later)"
      unfolding keys by (rule that(2))
    then have "last_wins (map entry allProfiles) (agent_pub_key a) = Some (profile a)"
      unfolding split by (rule last_wins_final)
    then show ?thesis by (simp add: eq map_add_def)
  qed
  have present: "agent_pub_key a \<in> dom ?after" if "a \<in> set allProfiles" for a
  proof -
    have "agent_pub_key a \<in> fst ` set (map entry allProfiles)"
      unfolding keys using that by (rule imageI)
    then have "agent_pub_key a \<in> fst ` set (rev (map entry allProfiles))"
      by (simp only: set_rev)
    then have "last_wins (map entry allProfiles) (agent_pub_key a) \<noteq> None"
      by (simp only: last_wins_def map_of_eq_None_iff not_not)
    then show ?thesis by (auto simp add: eq map_add_def split: option.splits)
  qed
  have untouched: "?after agentId = map_of (profiles s) agentId"
    if "agentId \<notin> agent_pub_key ` set allProfiles" for agentId
  proof -
    have "agentId \<notin> fst ` set (map entry allProfiles)"
      unfolding keys by (rule that)
    then show ?thesis by (simp add: eq map_add_def last_wins_absent)
  qed
  from result service in_order present final untouched show ?thesis by blast
qed

theorem fetchAllProfiles_overwrites_witness:
  "getAllProfiles (profilesService example_store) (Some [alice, bob, alicia])
     = Inr [alice, bob, alicia] \<and>
   fst (fetchAllProfiles (Some [alice, bob, alicia]) example_store) = Inr () \<and>
   map_of (profiles (snd (fetchAllProfiles (Some [alice, bob, alicia]) example_store))) ''uA''
     = Some (profile alicia) \<and>
   map_of (profiles (snd (fetchAllProfiles (Some [alice, bob, alicia]) example_store))) ''uB''
     = Some (profile bob) \<and>
   map_of (profiles (snd (fetchAllProfiles (Some [alice, bob, alicia]) example_store))) ''uC''
     = None"
proof -
  have got: "getAllProfiles (profilesService example_store) (Some [alice, bob, alicia])
      = Inr [alice, bob, alicia]"
    by (simp add: example_store_def example_service_def)
  have other: "''uC'' \<notin> agent_pub_key ` set [alice, bob, alicia]"
    by (simp add: alice_def bob_def alicia_def)
  have before: "map_of (profiles example_store) ''uC'' = None"
    by (simp add: example_store_def)
  have keys: "agent_pub_key alicia = ''uA''" "agent_pub_key bob = ''uB''"
    by (simp_all add: alicia_def bob_def)
  note facts = fetchAllProfiles_overwrites [OF got]
  note final = facts [THEN conjunct2, THEN conjunct2, THEN conjunct2, THEN conjunct2,
      THEN conjunct1, rule_format]
  note untouched = facts [THEN conjunct2, THEN conjunct2, THEN conjunct2, THEN conjunct2,
      THEN conjunct2, rule_format]
  have result: "fst (fetchAllProfiles (Some [alice, bob, alicia]) example_store) = Inr ()"
    using facts by (rule conjunct1)
  have last: "map_of (profiles (snd (fetchAllProfiles (Some [alice, bob, alicia]) example_store)))
      (agent_pub_key alicia) = Some (profile alicia)"
    by (rule final [of "[alice, bob]" alicia "[]"]) simp
  have mid: "map_of (profiles (snd (fetchAllProfiles (Some [alice, bob, alicia]) example_store)))
      (agent_pub_key bob) = Some (profile bob)"
    by (rule final [of "[alice]" bob "[alicia]"]) (simp add: alicia_def bob_def)
  have none: "map_of (profiles (snd (fetchAllProfiles (Some [alice, bob, alicia]) example_store)))
      ''uC'' = None"
    using untouched [OF other] before by simp
  from got result last mid none keys show ?thesis by simp
qed

text \<open>
  Claim C5. When the service returns a sequence to \<open>searchProfiles\<close>, the store changes
  exactly as \<open>fetchAllProfiles\<close> changes it on the same returned sequence, and every
  returned item is merged, whatever its nickname: the store filters nothing.
\<close>

theorem searchProfiles_merges_like_fetchAllProfiles:
  assumes "searchProfiles_service (profilesService s) w nicknamePrefix = Inr returned"
    and "getAllProfiles (profilesService s) w' = Inr returned"
  shows "searchProfiles w nicknamePrefix s = fetchAllProfiles w' s \<and>
         profiles (snd (searchProfiles w nicknamePrefix s)) =
           fold (\<lambda>a. set_property (agent_pub_key a) (profile a)) returned (profiles s) \<and>
         (\<forall>a \<in> set returned.
            agent_pub_key a \<in> dom (map_of (profiles (snd (searchProfiles w nicknamePrefix s)))))"
proof -
  have same: "searchProfiles w nicknamePrefix s = fetchAllProfiles w' s"
    using assms by (simp add: searchProfiles_def fetchAllProfiles_def)
  have merged: "profiles (snd (searchProfiles w nicknamePrefix s)) =
      fold (\<lambda>a. set_property (agent_pub_key a) (profile a)) returned (profiles s)"
    using assms(1) by (simp add: searchProfiles_def)
  have "agent_pub_key a \<in> dom (map_of (profiles (snd (searchProfiles w nicknamePrefix s))))"
    if "a \<in> set returned" for a
    unfolding merged dom_fold_set_property using that by simp
  with same merged show ?thesis by simp
qed



theorem searchProfiles_merges_like_fetchAllProfiles_witness:
  "searchProfiles_service (profilesService example_store) (Some [bob, alicia]) ''Al'' = Inr [alicia] \<and>
   getAllProfiles (profilesService example_store) (Some [alicia]) = Inr [alicia] \<and>
   searchProfiles (Some [bob, alicia]) ''Al'' example_store
     = fetchAllProfiles (Some [alicia]) example_store \<and>
   profiles (snd (searchProfiles (Some [bob, alicia]) ''Al'' example_store))
     = [(''uB'', profile bob), (''uA'', profile alicia)]"
proof -
  have found: "searchProfiles_service (profilesService example_store) (Some [bob, alicia]) ''Al''
      = Inr [alicia]"
    by (simp add: example_store_def example_service_def alicia_def bob_def)
  have all: "getAllProfiles (profilesService example_store) (Some [alicia]) = Inr [alicia]"
    by (simp add: example_store_def example_service_def)
  note facts = searchProfiles_merges_like_fetchAllProfiles [OF found all]
  have same: "searchProfiles (Some [bob, alicia]) ''Al'' example_store
      = fetchAllProfiles (Some [alicia]) example_store"
    using facts by (rule conjunct1)
  have "profiles (snd (searchProfiles (Some [bob, alicia]) ''Al'' example_store)) =
      fold (\<lambda>a. set_property (agent_pub_key a) (profile a)) [alicia] (profiles example_store)"
    using facts [THEN conjunct2] by (rule conjunct1)
  then have merged: "profiles (snd (searchProfiles (Some [bob, alicia]) ''Al'' example_store))
      = [(''uB'', profile bob), (''uA'', profile alicia)]"
    by (simp add: set_property_def example_store_def alicia_def)
  from found all same merged show ?thesis by simp
qed

section \<open>The cache only grows\<close>

text \<open>
  Claim C8. No method removes an entry: every agent in the cache before a call,
  successful or rejected, is in the cache after it, and so after any sequence of calls.
\<close>

theorem cache_never_shrinks:
  "dom (map_of (profiles s)) \<subseteq> dom (map_of (profiles (snd (perform serializeHash c w s)))) \<and>
   dom (map_of (profiles s)) \<subseteq> dom (map_of (profiles (run serializeHash cs s)))"
proof -
  have assign: "dom (map_of obj) \<subseteq> dom (map_of (set_property k v obj))"
    for k and v :: Profile and obj
    by (auto simp add: map_of_set_property)
  have loop: "dom (map_of obj) \<subseteq> dom (map_of (fold (\<lambda>a. set_property (f a) (g a)) xs obj))"
    for f and g :: "AgentProfile \<Rightarrow> Profile" and xs obj
    by (simp add: dom_fold_set_property)
  have step: "dom (map_of (profiles s)) \<subseteq> dom (map_of (profiles (snd (perform serializeHash c w s))))"
    for c w and s :: "'a ProfilesStore"
    by (cases c)
      (simp_all add: fetchAllProfiles_def fetchMyProfile_def searchProfiles_def createProfile_def
        assign loop split: sum.splits)
  have "dom (map_of (profiles s)) \<subseteq> dom (map_of (profiles (run serializeHash cs s)))"
  proof (induction cs arbitrary: s)
    case Nil
    show ?case by simp
  next
    case (Cons wc cs)
    obtain w c where wc: "wc = (w, c)" by (cases wc)
    have "dom (map_of (profiles s)) \<subseteq> dom (map_of (profiles (snd (perform serializeHash c w s))))"
      by (rule step)
    also have "\<dots> \<subseteq> dom (map_of (profiles (run serializeHash cs (snd (perform serializeHash c w s)))))"
      by (rule Cons.IH)
    finally show ?case by (simp add: wc)
  qed
  with step show ?thesis by simp
qed


theorem cache_never_shrinks_witness:
  "''uB'' \<in> dom (map_of (profiles example_store)) \<and>
   ''uB'' \<in> dom (map_of (profiles (snd (perform example_serializeHash (CreateProfile (profile alice))
       None example_store)))) \<and>
   ''uB'' \<in> dom (map_of (profiles (run example_serializeHash example_calls example_store)))"
proof -
  have before: "''uB'' \<in> dom (map_of (profiles example_store))"
    by (simp add: example_store_def)
  note facts = cache_never_shrinks [of example_store example_serializeHash
      "CreateProfile (profile alice)" None example_calls]
  from before facts [THEN conjunct1]
  have one: "''uB'' \<in> dom (map_of (profiles (snd (perform example_serializeHash
      (CreateProfile (profile alice)) None example_store))))"
    by (rule subsetD [rotated])
  from before facts [THEN conjunct2]
  have many: "''uB'' \<in> dom (map_of (profiles (run example_serializeHash example_calls example_store)))"
    by (rule subsetD [rotated])
  from before one many show ?thesis by simp
qed

section \<open>One agent's profile\<close>

text \<open>
  Claim C6. \<open>fetchAgentProfile(agentId)\<close> asks the service for the profile of \<open>agentId\<close>.
  When the service returns one, the method resolves and the cache holds that profile
  under \<open>agentId\<close>, every other entry being as before; when the service reports the
  agent as absent, the method resolves and the store is unchanged.
\<close>

theorem fetchAgentProfile_writes_agent:
  "(\<forall>a. getAgentProfile w agentId = Inr (Some a) \<longrightarrow>
      fetchAgentProfile getAgentProfile w agentId s
        = (Inr (), s\<lparr>profiles := set_property agentId (profile a) (profiles s)\<rparr>) \<and>
      map_of (profiles (snd (fetchAgentProfile getAgentProfile w agentId s))) agentId
        = Some (profile a) \<and>
      (\<forall>other. other \<noteq> agentId \<longrightarrow>
         map_of (profiles (snd (fetchAgentProfile getAgentProfile w agentId s))) other
           = map_of (profiles s) other)) \<and>
   (getAgentProfile w agentId = Inr None \<longrightarrow>
      fetchAgentProfile getAgentProfile w agentId s = (Inr (), s))"
  by (simp add: fetchAgentProfile_def map_of_set_property)

theorem fetchAgentProfile_writes_agent_witness:
  "example_getAgentProfile (Some [alice, bob]) ''uA'' = Inr (Some alice) \<and>
   example_getAgentProfile (Some [alice, bob]) ''uC'' = Inr None \<and>
   profiles (snd (fetchAgentProfile example_getAgentProfile (Some [alice, bob]) ''uA'' example_store))
     = [(''uB'', profile bob), (''uA'', profile alice)] \<and>
   fetchAgentProfile example_getAgentProfile (Some [alice, bob]) ''uC'' example_store
     = (Inr (), example_store)"
proof -
  have found: "example_getAgentProfile (Some [alice, bob]) ''uA'' = Inr (Some alice)"
    by (simp add: example_getAgentProfile_def alice_def)
  have absent: "example_getAgentProfile (Some [alice, bob]) ''uC'' = Inr None"
    by (simp add: example_getAgentProfile_def alice_def bob_def)
  note written = fetchAgentProfile_writes_agent
    [of example_getAgentProfile "Some [alice, bob]" "''uA''" example_store,
      THEN conjunct1, rule_format, OF found, THEN conjunct1]
  note kept = fetchAgentProfile_writes_agent
    [of example_getAgentProfile "Some [alice, bob]" "''uC''" example_store,
      THEN conjunct2, rule_format, OF absent]
  have "profiles (snd (fetchAgentProfile example_getAgentProfile (Some [alice, bob]) ''uA''
      example_store)) = [(''uB'', profile bob), (''uA'', profile alice)]"
    unfolding written by (simp add: set_property_def example_store_def)
  with found absent kept show ?thesis by simp
qed

text \<open>
  Claim C7. \<open>profileOf(agentId)\<close> is a function of the store alone: it returns the cached
  profile of \<open>agentId\<close>, and "absent" when the cache has none. In a store built by the
  constructor and used through any sequence of requests, it returns "absent" for every
  agent that no successful request obtained a profile for.
\<close>

theorem profileOf_reads_cache:
  "profileOf s agentId = map_of (profiles s) agentId \<and>
   (agentId \<notin> dom (map_of (profiles s)) \<longrightarrow> profileOf s agentId = None) \<and>
   (agentId \<notin> set (concat (map (returned_ids getAgentProfile serializeHash service) rs)) \<longrightarrow>
      profileOf (perform_requests getAgentProfile serializeHash rs (new_ProfilesStore service)) agentId
        = None)"
proof -
  have "dom (map_of (profiles (perform_requests getAgentProfile serializeHash rs
          (new_ProfilesStore service)))) =
      set (concat (map (returned_ids getAgentProfile serializeHash service) rs))"
    by (simp add: dom_perform_requests new_ProfilesStore_def)
  then show ?thesis
    by (auto simp add: profileOf_def)
qed

theorem profileOf_reads_cache_witness:
  "''uC'' \<notin> set (concat (map (returned_ids example_getAgentProfile example_serializeHash
       example_service) example_requests)) \<and>
   profileOf (perform_requests example_getAgentProfile example_serializeHash example_requests
       (new_ProfilesStore example_service)) ''uC'' = None \<and>
   ''uE'' \<notin> dom (map_of (profiles example_store)) \<and>
   profileOf example_store ''uE'' = None \<and>
   profileOf example_store ''uB'' = Some (profile bob)"
proof -
  have ids: "concat (map (returned_ids example_getAgentProfile example_serializeHash
       example_service) example_requests) = [''uA'', ''uB'']"
    by (simp add: example_requests_def example_service_def example_getAgentProfile_def
        alice_def bob_def)
  have never: "''uC'' \<notin> set (concat (map (returned_ids example_getAgentProfile
       example_serializeHash example_service) example_requests))"
    unfolding ids by simp
  have absent: "''uE'' \<notin> dom (map_of (profiles example_store))"
    by (simp add: example_store_def)
  note facts = profileOf_reads_cache
  have one: "profileOf (perform_requests example_getAgentProfile example_serializeHash
       example_requests (new_ProfilesStore example_service)) ''uC'' = None"
    using facts [THEN conjunct2, THEN conjunct2, rule_format, OF never] .
  have two: "profileOf example_store ''uE'' = None"
    using facts [THEN conjunct2, THEN conjunct1, rule_format, OF absent] .
  have three: "profileOf example_store ''uB'' = Some (profile bob)"
    using facts [THEN conjunct1, of example_store "''uB''"] by (simp add: example_store_def)
  from never one absent two three show ?thesis by simp
qed

section \<open>The profile a form saves\<close>

text \<open>
  Claim C10, as amended. For a form that has its nickname field and no additional text
  field filed under \<open>__proto__\<close>, \<open>fireSaveProfile\<close> dispatches a \<open>save-profile\<close> event,
  bubbling and composed, whose profile has the value of the nickname field as nickname.
  If an avatar is set, \<open>fields\<close> maps \<open>avatar\<close> to it. If none is set, \<open>fields\<close> has the
  key \<open>avatar\<close> only when an additional text field is filed under that name, with the
  value of that text field. Every other key has the value of the additional text field
  filed under it, and is missing when there is none.
\<close>

theorem fireSaveProfile_profile:
  assumes "nicknameField e = Some nickname_field"
    and "''__proto__'' \<notin> field_key ` set (additional_textfields e)"
  shows "\<exists>event. fireSaveProfile e = Inr event \<and>
      event_type event = ''save-profile'' \<and> bubbles event \<and> composed event \<and>
      nickname (detail_profile event) = value' nickname_field \<and>
      (truthy (avatar' e) \<longrightarrow>
         map_of (fields' (detail_profile event)) ''avatar'' = avatar' e) \<and>
      (\<not> truthy (avatar' e) \<longrightarrow>
         map_of (fields' (detail_profile event)) ''avatar'' = additional_value e ''avatar'') \<and>
      (\<forall>k. k \<noteq> ''avatar'' \<longrightarrow>
         map_of (fields' (detail_profile event)) k = additional_value e k)"
proof -
  note lookup = getAdditionalFieldsValues_lookup [OF assms(2)]
  let ?additional = "getAdditionalFieldsValues e"
  let ?fields = "if truthy (avatar' e)
                 then (case avatar' e of None \<Rightarrow> ?additional
                       | Some avatar \<Rightarrow> set_property ''avatar'' avatar ?additional)
                 else ?additional"
  let ?event = "\<lparr>event_type = ''save-profile'',
                 detail_profile = \<lparr>nickname = value' nickname_field, fields' = ?fields\<rparr>,
                 bubbles = True, composed = True\<rparr>"
  have fired: "fireSaveProfile e = Inr ?event"
    using assms(1) by (simp add: fireSaveProfile_def Let_def)
  have set: "map_of ?fields ''avatar'' = avatar' e" if "truthy (avatar' e)"
    using that by (cases "avatar' e") (simp_all add: truthy_def map_of_set_property)
  have unset: "map_of ?fields ''avatar'' = additional_value e ''avatar''" if "\<not> truthy (avatar' e)"
    using that by (simp add: lookup)
  have others: "map_of ?fields k = additional_value e k" if "k \<noteq> ''avatar''" for k
    using that
    by (cases "avatar' e") (simp_all add: lookup map_of_set_property)
  have here: "fireSaveProfile e = Inr ?event \<and>
      event_type ?event = ''save-profile'' \<and> bubbles ?event \<and> composed ?event \<and>
      nickname (detail_profile ?event) = value' nickname_field \<and>
      (truthy (avatar' e) \<longrightarrow> map_of (fields' (detail_profile ?event)) ''avatar'' = avatar' e) \<and>
      (\<not> truthy (avatar' e) \<longrightarrow>
         map_of (fields' (detail_profile ?event)) ''avatar'' = additional_value e ''avatar'') \<and>
      (\<forall>k. k \<noteq> ''avatar'' \<longrightarrow> map_of (fields' (detail_profile ?event)) k = additional_value e k)"
    using fired set unset others by simp
  show ?thesis by (rule exI [where x = ?event]) (rule here)
qed

text \<open>
  The claim as first stated, that \<open>fields\<close> has the key \<open>avatar\<close> exactly when an avatar
  is set, fails on a form with no avatar and an additional text field named \<open>avatar\<close>.
\<close>

theorem fireSaveProfile_avatar_counterexample:
  "fireSaveProfile collision_form =
     Inr \<lparr>event_type = ''save-profile'',
          detail_profile = \<lparr>nickname = ''Alice'',
                            fields' = [(''location'', ''Paris''), (''avatar'', ''typed'')]\<rparr>,
          bubbles = True, composed = True\<rparr> \<and>
   avatar' collision_form = None \<and>
   \<not> (''avatar'' \<in> dom (map_of (fields' (detail_profile (projr (fireSaveProfile collision_form)))))
        \<longleftrightarrow> truthy (avatar' collision_form))"
proof -
  have fired: "fireSaveProfile collision_form =
     Inr \<lparr>event_type = ''save-profile'',
          detail_profile = \<lparr>nickname = ''Alice'',
                            fields' = [(''location'', ''Paris''), (''avatar'', ''typed'')]\<rparr>,
          bubbles = True, composed = True\<rparr>"
    by (simp add: form_defs collision_form_def)
  have unset: "avatar' collision_form = None"
    by (simp add: collision_form_def)
  then have "\<not> truthy (avatar' collision_form)"
    by (simp add: truthy_def)
  with unset show ?thesis
    unfolding fired by simp
qed

theorem fireSaveProfile_profile_witness:
  "nicknameField example_form = Some \<lparr>id' = ''nickname-field'', value' = ''Alice''\<rparr> \<and>
   ''__proto__'' \<notin> field_key ` set (additional_textfields example_form) \<and>
   truthy (avatar' example_form) \<and>
   event_type (projr (fireSaveProfile example_form)) = ''save-profile'' \<and>
   bubbles (projr (fireSaveProfile example_form)) \<and>
   composed (projr (fireSaveProfile example_form)) \<and>
   nickname (detail_profile (projr (fireSaveProfile example_form))) = ''Alice'' \<and>
   map_of (fields' (detail_profile (projr (fireSaveProfile example_form)))) ''avatar''
     = Some ''data:image/png;base64,iVBORw0KGgo='' \<and>
   map_of (fields' (detail_profile (projr (fireSaveProfile example_form)))) ''location''
     = Some ''Paris'' \<and>
   nicknameField collision_form = Some \<lparr>id' = ''nickname-field'', value' = ''Alice''\<rparr> \<and>
   ''__proto__'' \<notin> field_key ` set (additional_textfields collision_form) \<and>
   \<not> truthy (avatar' collision_form) \<and>
   map_of (fields' (detail_profile (projr (fireSaveProfile collision_form)))) ''avatar''
     = Some ''typed''"
proof -
  note key_defs = additional_textfields_def field_key_def textfieldToFieldId_def property_key_def
  have field: "nicknameField example_form = Some \<lparr>id' = ''nickname-field'', value' = ''Alice''\<rparr>"
    by (simp add: nicknameField_def example_form_def)
  have ordinary: "''__proto__'' \<notin> field_key ` set (additional_textfields example_form)"
    by (simp add: key_defs example_form_def)
  have chosen: "truthy (avatar' example_form)"
    by (simp add: truthy_def example_form_def)
  have location: "additional_value example_form ''location'' = Some ''Paris''"
    by (simp add: additional_value_def key_defs example_form_def)
  have field': "nicknameField collision_form = Some \<lparr>id' = ''nickname-field'', value' = ''Alice''\<rparr>"
    by (simp add: nicknameField_def collision_form_def)
  have ordinary': "''__proto__'' \<notin> field_key ` set (additional_textfields collision_form)"
    by (simp add: key_defs collision_form_def)
  have none: "\<not> truthy (avatar' collision_form)"
    by (simp add: truthy_def collision_form_def)
  have typed: "additional_value collision_form ''avatar'' = Some ''typed''"
    by (simp add: additional_value_def key_defs collision_form_def)
  from fireSaveProfile_profile [OF field ordinary] obtain event where
    event: "fireSaveProfile example_form = Inr event"
      "nickname (detail_profile event) = ''Alice''"
      "truthy (avatar' example_form) \<longrightarrow>
         map_of (fields' (detail_profile event)) ''avatar'' = avatar' example_form"
      "\<forall>k. k \<noteq> ''avatar'' \<longrightarrow>
         map_of (fields' (detail_profile event)) k = additional_value example_form k"
      "event_type event = ''save-profile''" "bubbles event" "composed event"
    by auto
  from fireSaveProfile_profile [OF field' ordinary'] obtain event' where
    event': "fireSaveProfile collision_form = Inr event'"
      "\<not> truthy (avatar' collision_form) \<longrightarrow>
         map_of (fields' (detail_profile event')) ''avatar''
           = additional_value collision_form ''avatar''"
    by auto
  have a: "map_of (fields' (detail_profile event)) ''avatar''
      = Some ''data:image/png;base64,iVBORw0KGgo=''"
    using event(3) chosen by (simp add: example_form_def)
  have l: "map_of (fields' (detail_profile event)) ''location'' = Some ''Paris''"
    using event(4) location by simp
  have t: "map_of (fields' (detail_profile event')) ''avatar'' = Some ''typed''"
    using event'(2) none typed by simp
  from field ordinary chosen field' ordinary' none a l t event(2) event(5-7) show ?thesis
    unfolding event(1) event'(1) by simp
qed

end
